theory Spec2Isabelle
  imports Main "HOL-Library.Multiset"
begin

section \<open>The GitHub search widget of the kea tutorial\<close>

text \<open>
  The development embeds \<^verbatim>\<open>src/components/tutorials/github/index.js\<close>: the
  four reducers of the logic, the \<^verbatim>\<open>sortedRepositories\<close> selector and the
  asynchronous \<^verbatim>\<open>setUsername\<close> listener.
\<close>

subsection \<open>Values\<close>

text \<open>
  A repository record as the component reads it (\<^verbatim>\<open>repo.id\<close>,
  \<^verbatim>\<open>repo.full_name\<close>, \<^verbatim>\<open>repo.html_url\<close>, \<^verbatim>\<open>repo.stargazers_count\<close>,
  \<^verbatim>\<open>repo.forks\<close>). Star counts are integers, on which the subtraction of the
  comparator is exact.
\<close>

record repo =
  repo_id :: int
  full_name :: string
  html_url :: string
  stargazers_count :: int
  forks :: int

text \<open>
  The values that flow through the actions: whatever \<^verbatim>\<open>response.json()\<close>
  produced, \<^verbatim>\<open>null\<close>, a string, or the \<^verbatim>\<open>undefined\<close> of a missing
  property. An array is an array of repository records.
\<close>

datatype jsval =
    JUndefined
  | JNull
  | JBool bool
  | JNum int
  | JStr string
  | JArr "repo list"
  | JObj "(string \<times> jsval) list"

subsection \<open>Actions and reducers\<close>

text \<open>
  \<^verbatim>\<open>
  actions: () => ({
      setUsername: (username) => ({ username }),
      setRepositories: (repositories) => ({ repositories }),
      setFetchError: (error) => ({ error }),
  })
  \<close>
\<close>

datatype action =
    SetUsername string
  | SetRepositories jsval
  | SetFetchError jsval

record state =
  username :: string
  repositories :: jsval
  isLoading :: bool
  error :: jsval

text \<open>The defaults of the four reducers.\<close>

definition initial_state :: state where
  "initial_state =
     \<lparr>username = ''keajs'', repositories = JArr [], isLoading = False, error = JNull\<rparr>"

text \<open>
  One reducer per key, each reacting to the actions the source lists for it and keeping
  its value on every other action.
\<close>

fun username_reducer :: "string \<Rightarrow> action \<Rightarrow> string" where
  "username_reducer _ (SetUsername u) = u"
| "username_reducer s _ = s"

fun repositories_reducer :: "jsval \<Rightarrow> action \<Rightarrow> jsval" where
  "repositories_reducer _ (SetUsername _) = JArr []"
| "repositories_reducer _ (SetRepositories r) = r"
| "repositories_reducer s _ = s"

fun isLoading_reducer :: "bool \<Rightarrow> action \<Rightarrow> bool" where
  "isLoading_reducer _ (SetUsername _) = True"
| "isLoading_reducer _ (SetRepositories _) = False"
| "isLoading_reducer _ (SetFetchError _) = False"

fun error_reducer :: "jsval \<Rightarrow> action \<Rightarrow> jsval" where
  "error_reducer _ (SetUsername _) = JNull"
| "error_reducer _ (SetFetchError e) = e"
| "error_reducer s _ = s"

definition reduce :: "action \<Rightarrow> state \<Rightarrow> state" where
  "reduce a s =
     \<lparr>username = username_reducer (username s) a,
      repositories = repositories_reducer (repositories s) a,
      isLoading = isLoading_reducer (isLoading s) a,
      error = error_reducer (error s) a\<rparr>"

subsection \<open>The selector\<close>

text \<open>
  \<^verbatim>\<open>
  (repositories) => {
      return [...repositories].sort((a, b) => b.stargazers_count - a.stargazers_count)
  }
  \<close>
  \<^verbatim>\<open>Array.prototype.sort\<close> belongs to the language, not to the repository. It is
  modelled as ECMAScript 2019 specifies it: a stable sort that places \<open>a\<close> before \<open>b\<close>
  when the comparator is negative and keeps the order of the two when it is zero. The
  model is the insertion sort.
\<close>

definition compareFn :: "repo \<Rightarrow> repo \<Rightarrow> int" where
  "compareFn a b = stargazers_count b - stargazers_count a"

fun insert_by :: "('a \<Rightarrow> 'a \<Rightarrow> int) \<Rightarrow> 'a \<Rightarrow> 'a list \<Rightarrow> 'a list" where
  "insert_by cmp x [] = [x]"
| "insert_by cmp x (y # ys) =
     (if cmp x y \<le> 0 then x # y # ys else y # insert_by cmp x ys)"

definition array_sort :: "('a \<Rightarrow> 'a \<Rightarrow> int) \<Rightarrow> 'a list \<Rightarrow> 'a list" where
  "array_sort cmp xs = foldr (insert_by cmp) xs []"

definition sortedRepositories :: "repo list \<Rightarrow> repo list" where
  "sortedRepositories rs = array_sort compareFn rs"

text \<open>
  The same selector over a store of arrays, where sharing is visible. An address is an
  index into the store. The spread \<^verbatim>\<open>[...repositories]\<close> allocates a new array
  with the same elements; \<^verbatim>\<open>sort\<close> reorders the array it is called on and returns
  that same array. Reading an address that is not allocated is an error of the model.
\<close>

type_synonym addr = nat
type_synonym store = "repo list list"

definition spread :: "addr \<Rightarrow> store \<Rightarrow> (addr \<times> store) option" where
  "spread a h = (if a < length h then Some (length h, h @ [h ! a]) else None)"

definition sort_in_place ::
  "(repo \<Rightarrow> repo \<Rightarrow> int) \<Rightarrow> addr \<Rightarrow> store \<Rightarrow> (addr \<times> store) option" where
  "sort_in_place cmp a h =
     (if a < length h then Some (a, h[a := array_sort cmp (h ! a)]) else None)"

definition sortedRepositories_store :: "addr \<Rightarrow> store \<Rightarrow> (addr \<times> store) option" where
  "sortedRepositories_store a h =
     (case spread a h of
        None \<Rightarrow> None
      | Some (c, h1) \<Rightarrow> sort_in_place compareFn c h1)"

text \<open>Descending star counts, the order the comparator asks for.\<close>

abbreviation descending :: "repo list \<Rightarrow> bool" where
  "descending \<equiv> sorted_wrt (\<lambda>a b. stargazers_count b \<le> stargazers_count a)"

subsection \<open>The listener\<close>

text \<open>
  \<^verbatim>\<open>
  setUsername: async ({ username }, breakpoint) => {
      await breakpoint(300)
      const url = `${API_URL}/users/${username}/repos?per_page=250`
      let response
      try {
          response = await fetch(url)
      } catch (error) {
          actions.setFetchError(error.message)
          return
      }
      breakpoint()
      const json = await response.json()
      if (response.status === 200) {
          actions.setRepositories(json)
      } else {
          actions.setFetchError(json.message)
      }
  }
  \<close>
  The listener suspends three times: at \<^verbatim>\<open>await breakpoint(300)\<close>, at
  \<^verbatim>\<open>await fetch(url)\<close> and at \<^verbatim>\<open>await response.json()\<close>. Between two
  suspensions it runs without interruption on the single UI thread. Each run of the
  listener is a task, filed under the number it was started with, and a task is at one
  of the three suspensions until it ends.
\<close>

definition API_URL :: string where
  "API_URL = ''https://api.github.com''"

definition url_of :: "string \<Rightarrow> string" where
  "url_of u = API_URL @ ''/users/'' @ u @ ''/repos?per_page=250''"

text \<open>
  What the environment hands back. \<^verbatim>\<open>fetch\<close> either throws an error with a
  message or returns a response; \<^verbatim>\<open>response.json()\<close> either yields the parsed
  body or, for a body that is not JSON, rejects with a \<^verbatim>\<open>SyntaxError\<close>
  (\<open>json_body = None\<close>).
\<close>

datatype js_error = SyntaxError | TypeError

record response =
  status :: int
  json_body :: "jsval option"

datatype phase =
    Debouncing nat string
  | Fetching
  | Parsing response

text \<open>
  The widget and its surroundings: the values of the logic, the number of the latest
  listener run, the suspended tasks, the URLs passed to \<^verbatim>\<open>fetch\<close> so far, the
  errors that left the listener uncaught, and the clock in milliseconds.
\<close>

record world =
  st :: state
  counter :: nat
  tasks :: "nat \<rightharpoonup> phase"
  requests :: "string list"
  escaped :: "js_error list"
  now :: nat

definition init_world :: world where
  "init_world =
     \<lparr>st = initial_state, counter = 0, tasks = Map.empty, requests = [], escaped = [],
      now = 0\<rparr>"

text \<open>
  Modelled from the spec: the \<^verbatim>\<open>breakpoint\<close> function that the kea library
  passes to a listener is not under \<^verbatim>\<open>src/\<close>. The spec describes it as a
  request-generation counter: each accepted query increments the counter, and a
  suspended continuation compares the value it captured with the current one and
  discards itself when they differ. \<^verbatim>\<open>breakpoint(300)\<close> makes the comparison
  after 300 ms, \<^verbatim>\<open>breakpoint()\<close> at once. A discarded task ends silently.
\<close>

definition superseded :: "nat \<Rightarrow> world \<Rightarrow> bool" where
  "superseded i w \<longleftrightarrow> counter w \<noteq> i"

definition finish :: "nat \<Rightarrow> world \<Rightarrow> world" where
  "finish i w = w\<lparr>tasks := (tasks w)(i := None)\<rparr>"

definition throw :: "js_error \<Rightarrow> nat \<Rightarrow> world \<Rightarrow> world" where
  "throw e i w = finish i (w\<lparr>escaped := escaped w @ [e]\<rparr>)"

text \<open>
  Dispatching an action runs the reducers. The payloads the listener can hand over from
  a parsed body or an error message are modelled; a reducer result of
  \<^verbatim>\<open>undefined\<close> (an error body without a \<^verbatim>\<open>message\<close>) is stored like
  any other value here, which the store of the library need not accept.
\<close>

definition dispatch :: "action \<Rightarrow> world \<Rightarrow> world" where
  "dispatch a w = w\<lparr>st := reduce a (st w)\<rparr>"

text \<open>
  \<^verbatim>\<open>actions.setUsername(u)\<close>: the reducers run, then the listener starts under
  the next number and suspends at \<^verbatim>\<open>await breakpoint(300)\<close> with its timer set
  300 ms ahead.
\<close>

definition setUsername :: "string \<Rightarrow> world \<Rightarrow> world" where
  "setUsername u w =
     (let w1 = dispatch (SetUsername u) w;
          i = counter w1 + 1
      in w1\<lparr>counter := i, tasks := (tasks w1)(i \<mapsto> Debouncing (now w1 + 300) u)\<rparr>)"

text \<open>
  The timer of task \<open>i\<close> has fired. A superseded task ends here; the latest one
  builds the URL, calls \<^verbatim>\<open>fetch\<close> and suspends again.
\<close>

definition after_debounce :: "nat \<Rightarrow> world \<Rightarrow> world" where
  "after_debounce i w =
     (case tasks w i of
        Some (Debouncing d u) \<Rightarrow>
          if superseded i w then finish i w
          else w\<lparr>requests := requests w @ [url_of u], tasks := (tasks w)(i \<mapsto> Fetching)\<rparr>
      | _ \<Rightarrow> w)"

text \<open>
  \<^verbatim>\<open>fetch\<close> threw: the \<^verbatim>\<open>catch\<close> block dispatches
  \<^verbatim>\<open>setFetchError(error.message)\<close> and returns.
\<close>

definition fetch_rejected :: "nat \<Rightarrow> string \<Rightarrow> world \<Rightarrow> world" where
  "fetch_rejected i msg w =
     (case tasks w i of
        Some Fetching \<Rightarrow> finish i (dispatch (SetFetchError (JStr msg)) w)
      | _ \<Rightarrow> w)"

text \<open>
  \<^verbatim>\<open>fetch\<close> returned a response: \<^verbatim>\<open>breakpoint()\<close> ends a superseded
  task, the latest one suspends at \<^verbatim>\<open>await response.json()\<close>.
\<close>

definition fetch_resolved :: "nat \<Rightarrow> response \<Rightarrow> world \<Rightarrow> world" where
  "fetch_resolved i r w =
     (case tasks w i of
        Some Fetching \<Rightarrow>
          if superseded i w then finish i w
          else w\<lparr>tasks := (tasks w)(i \<mapsto> Parsing r)\<rparr>
      | _ \<Rightarrow> w)"

text \<open>
  \<^verbatim>\<open>json.message\<close>: reading a property of \<^verbatim>\<open>null\<close> or
  \<^verbatim>\<open>undefined\<close> throws a \<^verbatim>\<open>TypeError\<close>; an object without the property,
  and every other value, gives \<^verbatim>\<open>undefined\<close>.
\<close>

fun get_message :: "jsval \<Rightarrow> js_error + jsval" where
  "get_message JUndefined = Inl TypeError"
| "get_message JNull = Inl TypeError"
| "get_message (JObj kvs) =
     Inr (case map_of kvs ''message'' of None \<Rightarrow> JUndefined | Some v \<Rightarrow> v)"
| "get_message _ = Inr JUndefined"

text \<open>
  \<^verbatim>\<open>response.json()\<close> has settled. No \<^verbatim>\<open>breakpoint\<close> follows it and no
  \<^verbatim>\<open>try\<close> surrounds it.
\<close>

definition json_settled :: "nat \<Rightarrow> world \<Rightarrow> world" where
  "json_settled i w =
     (case tasks w i of
        Some (Parsing r) \<Rightarrow>
          (case json_body r of
             None \<Rightarrow> throw SyntaxError i w
           | Some json \<Rightarrow>
               if status r = 200 then finish i (dispatch (SetRepositories json) w)
               else (case get_message json of
                       Inl e \<Rightarrow> throw e i w
                     | Inr m \<Rightarrow> finish i (dispatch (SetFetchError m) w)))
      | _ \<Rightarrow> w)"

text \<open>
  Time passes. Every timer that is due fires, in the order the timers were set; task
  numbers are handed out from \<open>counter\<close>, so the numbers up to \<open>counter\<close> cover
  all of them.
\<close>

definition timer_due :: "nat \<Rightarrow> world \<Rightarrow> nat \<Rightarrow> bool" where
  "timer_due t w i = (case tasks w i of Some (Debouncing d u) \<Rightarrow> d \<le> t | _ \<Rightarrow> False)"

definition fire :: "nat \<Rightarrow> world \<Rightarrow> nat \<Rightarrow> world" where
  "fire t w i = (if timer_due t w i then after_debounce i w else w)"

definition elapse :: "nat \<Rightarrow> world \<Rightarrow> world" where
  "elapse ms w =
     (let t = now w + ms
      in foldl (fire t) (w\<lparr>now := t\<rparr>) [0..<Suc (counter w)])"

text \<open>
  \<^verbatim>\<open>afterMount: () => { actions.setUsername(values.username) }\<close>
\<close>

definition afterMount :: "world \<Rightarrow> world" where
  "afterMount w = setUsername (username (st w)) w"

definition mounted :: world where
  "mounted = afterMount init_world"

text \<open>
  Everything that can happen to a mounted widget: the user types, time passes, a
  \<^verbatim>\<open>fetch\<close> fails or answers, a body has been read.
\<close>

datatype event =
    Call string
  | Elapse nat
  | FetchRejected nat string
  | FetchResolved nat response
  | JsonSettled nat

fun step :: "world \<Rightarrow> event \<Rightarrow> world" where
  "step w (Call u) = setUsername u w"
| "step w (Elapse ms) = elapse ms w"
| "step w (FetchRejected i msg) = fetch_rejected i msg w"
| "step w (FetchResolved i r) = fetch_resolved i r w"
| "step w (JsonSettled i) = json_settled i w"

definition run :: "event list \<Rightarrow> world \<Rightarrow> world" where
  "run evs w = foldl step w evs"

text \<open>
  A burst of calls: each one comes \<open>gap\<close> milliseconds after the call before it.
\<close>

fun burst :: "(nat \<times> string) list \<Rightarrow> world \<Rightarrow> world" where
  "burst [] w = w"
| "burst ((gap, u) # cs) w = burst cs (setUsername u (elapse gap w))"

text \<open>
  The mutual exclusion of results and error message: at most one of the two is
  non-empty.
\<close>

definition exclusive :: "state \<Rightarrow> bool" where
  "exclusive s \<longleftrightarrow> repositories s = JArr [] \<or> error s = JNull"

text \<open>Sample data for the concrete runs below.\<close>

definition kea_repo :: repo where
  "kea_repo =
     \<lparr>repo_id = 1, full_name = ''keajs/kea'', html_url = ''https://github.com/keajs/kea'',
      stargazers_count = 10, forks = 2\<rparr>"

definition docs_repo :: repo where
  "docs_repo =
     \<lparr>repo_id = 2, full_name = ''keajs/kea-docs'',
      html_url = ''https://github.com/keajs/kea-docs'', stargazers_count = 5, forks = 1\<rparr>"

definition typegen_repo :: repo where
  "typegen_repo =
     \<lparr>repo_id = 3, full_name = ''keajs/kea-typegen'',
      html_url = ''https://github.com/keajs/kea-typegen'', stargazers_count = 5, forks = 0\<rparr>"

section \<open>Properties of the selector\<close>

lemma set_insert_by: "set (insert_by cmp x ys) = insert x (set ys)"
  by (induction ys) auto

lemma mset_insert_by: "mset (insert_by cmp x ys) = add_mset x (mset ys)"
  by (induction ys) auto

lemma mset_array_sort: "mset (array_sort cmp xs) = mset xs"
  unfolding array_sort_def by (induction xs) (simp_all add: mset_insert_by)

lemma descending_insert_by:
  "descending ys \<Longrightarrow> descending (insert_by compareFn x ys)"
proof (induction ys)
  case Nil
  show ?case by simp
next
  case (Cons y ys)
  show ?case
  proof (cases "compareFn x y \<le> 0")
    case True
    then have "stargazers_count y \<le> stargazers_count x"
      by (simp add: compareFn_def)
    moreover have "\<forall>z\<in>set ys. stargazers_count z \<le> stargazers_count y"
      using Cons.prems by simp
    ultimately show ?thesis
      using True Cons.prems by fastforce
  next
    case False
    then have "stargazers_count x \<le> stargazers_count y"
      by (simp add: compareFn_def)
    then show ?thesis
      using False Cons by (auto simp: set_insert_by)
  qed
qed

lemma descending_array_sort: "descending (array_sort compareFn xs)"
  unfolding array_sort_def by (induction xs) (simp_all add: descending_insert_by)

text \<open>Inserting never moves an element past another one with the same star count.\<close>

lemma filter_insert_by:
  "filter (\<lambda>r. stargazers_count r = k) (insert_by compareFn x ys) =
   filter (\<lambda>r. stargazers_count r = k) (x # ys)"
  by (induction ys) (auto simp: compareFn_def)

lemma filter_array_sort:
  "filter (\<lambda>r. stargazers_count r = k) (array_sort compareFn xs) =
   filter (\<lambda>r. stargazers_count r = k) xs"
  unfolding array_sort_def by (induction xs) (simp_all add: filter_insert_by)

text \<open>
  Claim C3. For every list of repositories, the empty and the one-element list
  included, \<open>sortedRepositories\<close> is a permutation of the list, ordered by descending
  star count, and the repositories with one and the same star count appear in the order
  they had in the list.
\<close>

theorem sortedRepositories_stable_descending_permutation:
  "mset (sortedRepositories rs) = mset rs \<and>
   sorted_wrt (\<lambda>a b. stargazers_count b \<le> stargazers_count a) (sortedRepositories rs) \<and>
   (\<forall>k. filter (\<lambda>r. stargazers_count r = k) (sortedRepositories rs) =
        filter (\<lambda>r. stargazers_count r = k) rs)"
  unfolding sortedRepositories_def
  by (simp add: mset_array_sort descending_array_sort filter_array_sort)

theorem sortedRepositories_example:
  "mset (sortedRepositories [docs_repo, kea_repo, typegen_repo]) =
     mset [docs_repo, kea_repo, typegen_repo] \<and>
   sorted_wrt (\<lambda>a b. stargazers_count b \<le> stargazers_count a)
     (sortedRepositories [docs_repo, kea_repo, typegen_repo]) \<and>
   (\<forall>k. filter (\<lambda>r. stargazers_count r = k)
          (sortedRepositories [docs_repo, kea_repo, typegen_repo]) =
        filter (\<lambda>r. stargazers_count r = k) [docs_repo, kea_repo, typegen_repo])"
  by (rule sortedRepositories_stable_descending_permutation)

lemma sortedRepositories_ties_keep_order:
  "sortedRepositories [docs_repo, kea_repo, typegen_repo] = [kea_repo, docs_repo, typegen_repo]"
  by (simp add: sortedRepositories_def array_sort_def compareFn_def kea_repo_def docs_repo_def
      typegen_repo_def)

text \<open>
  Claim C9. Evaluating the selector leaves the stored list as it is: the sort works on
  a fresh array, so the array at the address of \<open>repositories\<close>, like every other
  array allocated before, holds the same elements in the same order afterwards, and
  the sorted array lives at another address.
\<close>

theorem sortedRepositories_store_frame:
  assumes "a < length h"
  shows "\<exists>c h'. sortedRepositories_store a h = Some (c, h') \<and>
           c \<noteq> a \<and> h' ! c = sortedRepositories (h ! a) \<and>
           h' ! a = h ! a \<and> (\<forall>b < length h. h' ! b = h ! b)"
  using assms
  by (simp add: sortedRepositories_store_def spread_def sort_in_place_def
      sortedRepositories_def nth_append)

theorem sortedRepositories_store_frame_witness:
  "(0::nat) < length [[docs_repo, kea_repo]] \<and>
   (\<exists>c h'. sortedRepositories_store 0 [[docs_repo, kea_repo]] = Some (c, h') \<and>
      c \<noteq> 0 \<and> h' ! c = sortedRepositories ([[docs_repo, kea_repo]] ! 0) \<and>
      h' ! 0 = [[docs_repo, kea_repo]] ! 0 \<and>
      (\<forall>b < length [[docs_repo, kea_repo]]. h' ! b = [[docs_repo, kea_repo]] ! b))"
proof -
  have h: "(0::nat) < length [[docs_repo, kea_repo]]"
    by simp
  show ?thesis
    using h sortedRepositories_store_frame [OF h] by blast
qed

text \<open>Sorting the stored array itself, without the copy, would reorder it.\<close>

lemma sort_in_place_reorders:
  "sort_in_place compareFn 0 [[docs_repo, kea_repo]] = Some (0, [[kea_repo, docs_repo]])"
  by (simp add: sort_in_place_def array_sort_def compareFn_def kea_repo_def docs_repo_def)

section \<open>Properties of the reducers\<close>

text \<open>
  Claim C4. Every \<open>setUsername u\<close> call at once sets the username to \<open>u\<close>, the
  repositories to the empty list, the error to null and \<open>isLoading\<close> to true; no
  request has gone out by then, the listener is waiting for its 300 ms timer.
\<close>

theorem setUsername_clears_and_loads:
  "st (setUsername u w) =
     \<lparr>username = u, repositories = JArr [], isLoading = True, error = JNull\<rparr> \<and>
   requests (setUsername u w) = requests w \<and>
   tasks (setUsername u w) (counter (setUsername u w)) = Some (Debouncing (now w + 300) u)"
  by (simp add: setUsername_def dispatch_def reduce_def Let_def)

theorem setUsername_clears_and_loads_example:
  "st (setUsername ''kea'' mounted) =
     \<lparr>username = ''kea'', repositories = JArr [], isLoading = True, error = JNull\<rparr> \<and>
   requests (setUsername ''kea'' mounted) = requests mounted \<and>
   tasks (setUsername ''kea'' mounted) (counter (setUsername ''kea'' mounted)) =
     Some (Debouncing (now mounted + 300) ''kea'')"
  by (rule setUsername_clears_and_loads)

text \<open>
  Claim C10. \<open>setRepositories\<close> changes the repositories and \<open>isLoading\<close> only and
  leaves username and error as they are; \<open>setFetchError\<close> changes the error and
  \<open>isLoading\<close> only and leaves username and repositories as they are; an action
  clears both repositories and error from every state exactly when it is a
  \<open>setUsername\<close>.
\<close>

theorem reducers_frame:
  "username (reduce (SetRepositories r) s) = username s \<and>
   error (reduce (SetRepositories r) s) = error s \<and>
   repositories (reduce (SetRepositories r) s) = r \<and>
   isLoading (reduce (SetRepositories r) s) = False \<and>
   username (reduce (SetFetchError e) s) = username s \<and>
   repositories (reduce (SetFetchError e) s) = repositories s \<and>
   error (reduce (SetFetchError e) s) = e \<and>
   isLoading (reduce (SetFetchError e) s) = False \<and>
   ((\<forall>s'. repositories (reduce a s') = JArr [] \<and> error (reduce a s') = JNull)
      \<longleftrightarrow> (\<exists>u. a = SetUsername u))"
proof -
  have only: "(\<forall>s'. repositories (reduce a s') = JArr [] \<and> error (reduce a s') = JNull)
      \<longleftrightarrow> (\<exists>u. a = SetUsername u)"
  proof (cases a)
    case (SetUsername u)
    then show ?thesis by (simp add: reduce_def)
  next
    case (SetRepositories r')
    have "error (reduce a (initial_state\<lparr>error := JStr ''x''\<rparr>)) \<noteq> JNull"
      using SetRepositories by (simp add: reduce_def)
    then show ?thesis using SetRepositories by blast
  next
    case (SetFetchError e')
    have "repositories (reduce a (initial_state\<lparr>repositories := JNull\<rparr>)) \<noteq> JArr []"
      using SetFetchError by (simp add: reduce_def)
    then show ?thesis using SetFetchError by blast
  qed
  show ?thesis using only by (simp add: reduce_def)
qed

theorem reducers_frame_example:
  "\<not> (\<forall>s'. repositories (reduce (SetFetchError (JStr ''Not Found'')) s') = JArr [] \<and>
            error (reduce (SetFetchError (JStr ''Not Found'')) s') = JNull)"
  using reducers_frame [of JNull initial_state JNull "SetFetchError (JStr ''Not Found'')"]
  by simp

section \<open>Properties of the listener\<close>

subsection \<open>What a timer leaves alone\<close>

lemma counter_after_debounce [simp]: "counter (after_debounce i w) = counter w"
  by (simp add: after_debounce_def finish_def split: option.splits phase.splits)

lemma counter_fire [simp]: "counter (fire t w i) = counter w"
  by (simp add: fire_def)

lemma now_fire [simp]: "now (fire t w i) = now w"
  by (simp add: fire_def after_debounce_def finish_def split: option.splits phase.splits)

lemma st_fire [simp]: "st (fire t w i) = st w"
  by (simp add: fire_def after_debounce_def finish_def split: option.splits phase.splits)

lemma tasks_fire_other: "j \<noteq> i \<Longrightarrow> tasks (fire t w i) j = tasks w j"
  by (simp add: fire_def after_debounce_def finish_def split: option.splits phase.splits)

lemma fire_not_due: "\<not> timer_due t w i \<Longrightarrow> fire t w i = w"
  by (simp add: fire_def)

lemma requests_fire_stale: "i \<noteq> counter w \<Longrightarrow> requests (fire t w i) = requests w"
  by (auto simp: fire_def after_debounce_def finish_def superseded_def
      split: option.splits phase.splits)

lemma fire_latest_due:
  "tasks w (counter w) = Some (Debouncing d u) \<Longrightarrow> d \<le> t \<Longrightarrow>
   requests (fire t w (counter w)) = requests w @ [url_of u] \<and>
   tasks (fire t w (counter w)) (counter w) = Some Fetching"
  by (simp add: fire_def timer_due_def after_debounce_def superseded_def)

lemma counter_foldl_fire [simp]: "counter (foldl (fire t) w is) = counter w"
  by (induction "is" arbitrary: w) simp_all

lemma now_foldl_fire [simp]: "now (foldl (fire t) w is) = now w"
  by (induction "is" arbitrary: w) simp_all

lemma st_foldl_fire [simp]: "st (foldl (fire t) w is) = st w"
  by (induction "is" arbitrary: w) simp_all

lemma requests_foldl_fire_stale:
  "counter w \<notin> set is \<Longrightarrow> requests (foldl (fire t) w is) = requests w"
  by (induction "is" arbitrary: w) (simp_all add: requests_fire_stale)

text \<open>
  While the timer of the latest task is not due, a round of timers issues no request
  and leaves that task waiting.
\<close>

lemma foldl_fire_latest_not_due:
  "\<not> timer_due t w (counter w) \<Longrightarrow>
   requests (foldl (fire t) w is) = requests w \<and>
   tasks (foldl (fire t) w is) (counter w) = tasks w (counter w)"
proof (induction "is" arbitrary: w)
  case Nil
  show ?case by simp
next
  case (Cons i "is")
  show ?case
  proof (cases "i = counter w")
    case True
    then have "fire t w i = w"
      using Cons.prems by (simp add: fire_not_due)
    then show ?thesis
      using Cons by simp
  next
    case False
    then have same: "tasks (fire t w i) (counter w) = tasks w (counter w)"
      by (simp add: tasks_fire_other)
    then have "\<not> timer_due t (fire t w i) (counter (fire t w i))"
      using Cons.prems by (simp add: timer_due_def)
    from Cons.IH [OF this] show ?thesis
      using False same by (simp add: requests_fire_stale)
  qed
qed

text \<open>Once it is due, a round of timers issues the request of the latest task, once.\<close>

lemma foldl_fire_latest_due:
  "tasks w (counter w) = Some (Debouncing d u) \<Longrightarrow> d \<le> t \<Longrightarrow>
   distinct is \<Longrightarrow> counter w \<in> set is \<Longrightarrow>
   requests (foldl (fire t) w is) = requests w @ [url_of u]"
proof (induction "is" arbitrary: w)
  case Nil
  then show ?case by simp
next
  case (Cons i "is")
  show ?case
  proof (cases "i = counter w")
    case True
    then have "counter (fire t w i) \<notin> set is"
      using Cons.prems by simp
    then have "requests (foldl (fire t) (fire t w i) is) = requests (fire t w i)"
      by (rule requests_foldl_fire_stale)
    then show ?thesis
      using True fire_latest_due [OF Cons.prems(1,2)] by simp
  next
    case False
    then have latest: "tasks (fire t w i) (counter (fire t w i)) = Some (Debouncing d u)"
      using Cons.prems by (simp add: tasks_fire_other)
    have member: "counter (fire t w i) \<in> set is"
      using False Cons.prems by auto
    have "distinct is"
      using Cons.prems by simp
    from Cons.IH [OF latest Cons.prems(2) this member] show ?thesis
      using False by (simp add: requests_fire_stale)
  qed
qed

lemma counter_elapse [simp]: "counter (elapse ms w) = counter w"
  by (simp add: elapse_def Let_def)

lemma now_elapse [simp]: "now (elapse ms w) = now w + ms"
  by (simp add: elapse_def Let_def)

lemma st_elapse [simp]: "st (elapse ms w) = st w"
  by (simp add: elapse_def Let_def)

lemma elapse_within_window:
  assumes "tasks w (counter w) = Some (Debouncing d u)" and "now w + ms < d"
  shows "requests (elapse ms w) = requests w \<and>
         tasks (elapse ms w) (counter w) = Some (Debouncing d u)"
proof -
  let ?w = "w\<lparr>now := now w + ms\<rparr>"
  have "\<not> timer_due (now w + ms) ?w (counter ?w)"
    using assms by (simp add: timer_due_def)
  from foldl_fire_latest_not_due [OF this, of "[0..<Suc (counter w)]"]
  show ?thesis
    using assms(1) by (simp add: elapse_def Let_def)
qed

lemma elapse_past_window:
  assumes "tasks w (counter w) = Some (Debouncing d u)" and "d \<le> now w + ms"
  shows "requests (elapse ms w) = requests w @ [url_of u]"
proof -
  let ?w = "w\<lparr>now := now w + ms\<rparr>"
  have "tasks ?w (counter ?w) = Some (Debouncing d u)"
    using assms(1) by simp
  moreover have "distinct [0..<Suc (counter ?w)]"
    by simp
  moreover have "counter ?w \<in> set [0..<Suc (counter ?w)]"
    by simp
  ultimately have "requests (foldl (fire (now w + ms)) ?w [0..<Suc (counter ?w)]) =
      requests ?w @ [url_of u]"
    using assms(2) foldl_fire_latest_due by blast
  then show ?thesis
    by (simp add: elapse_def Let_def)
qed

lemma setUsername_task:
  "tasks (setUsername u w) (counter (setUsername u w)) = Some (Debouncing (now w + 300) u)"
  by (simp add: setUsername_def dispatch_def Let_def)

lemma now_setUsername [simp]: "now (setUsername u w) = now w"
  by (simp add: setUsername_def dispatch_def Let_def)

lemma requests_setUsername [simp]: "requests (setUsername u w) = requests w"
  by (simp add: setUsername_def dispatch_def Let_def)

lemma burst_requests:
  assumes "tasks w (counter w) = Some (Debouncing (now w + 300) u)"
    and "\<forall>(gap, v)\<in>set cs. gap < 300" and "300 \<le> T"
  shows "requests (elapse T (burst cs w)) = requests w @ [url_of (last (u # map snd cs))]"
  using assms
proof (induction cs arbitrary: w u)
  case Nil
  then show ?case
    by (simp add: elapse_past_window)
next
  case (Cons c cs)
  obtain gap v where c: "c = (gap, v)"
    by (cases c)
  have gap: "gap < 300"
    using Cons.prems(2) c by simp
  let ?w1 = "elapse gap w"
  let ?w2 = "setUsername v ?w1"
  have quiet: "requests ?w1 = requests w"
    using elapse_within_window [OF Cons.prems(1), of gap] gap by simp
  have "tasks ?w2 (counter ?w2) = Some (Debouncing (now ?w2 + 300) v)"
    by (simp add: setUsername_task)
  moreover have "\<forall>(gap, v)\<in>set cs. gap < 300"
    using Cons.prems(2) by simp
  ultimately have "requests (elapse T (burst cs ?w2)) =
      requests ?w2 @ [url_of (last (v # map snd cs))]"
    using Cons.prems(3) by (rule Cons.IH)
  then show ?case
    using quiet c by simp
qed

text \<open>
  The URL is the text of the source's template with the username in the middle, so two
  usernames never share a URL.
\<close>

lemma url_of_literal:
  "url_of u = ''https://api.github.com/users/'' @ u @ ''/repos?per_page=250''"
  by (simp add: url_of_def API_URL_def)

lemma url_of_inject: "url_of u = url_of v \<longleftrightarrow> u = v"
  by (simp add: url_of_literal)

text \<open>
  Claim C2. Take any call \<open>setUsername u\<close> followed by finitely many further calls,
  each less than 300 ms after the call before it. Once 300 ms or more have passed
  after the last call, exactly one request has been issued since the first call: the
  one to \<^verbatim>\<open>https://api.github.com/users/<last value>/repos?per_page=250\<close>.
  None of the superseded values was ever requested.
\<close>

theorem burst_issues_one_request_for_last_value:
  assumes "\<forall>(gap, v)\<in>set cs. gap < 300" and "300 \<le> T"
  shows "requests (elapse T (burst cs (setUsername u w))) =
           requests w @
           [''https://api.github.com/users/'' @ last (u # map snd cs) @
            ''/repos?per_page=250'']"
proof -
  have "tasks (setUsername u w) (counter (setUsername u w)) =
      Some (Debouncing (now (setUsername u w) + 300) u)"
    by (simp add: setUsername_task)
  from burst_requests [OF this assms]
  have "requests (elapse T (burst cs (setUsername u w))) =
      requests w @ [url_of (last (u # map snd cs))]"
    by simp
  then show ?thesis
    by (simp only: url_of_literal)
qed

theorem burst_issues_one_request_for_last_value_witness:
  "(120::nat) < 300 \<and> (299::nat) < 300 \<and> (300::nat) \<le> 300 \<and>
   requests (elapse 300 (burst [(120, ''ke''), (299, ''kea'')] (setUsername ''k'' init_world))) =
     [''https://api.github.com/users/kea/repos?per_page=250'']"
proof -
  have gaps: "\<forall>(gap, v)\<in>set [(120::nat, ''ke''), (299, ''kea'')]. gap < 300"
    by simp
  have wait: "(300::nat) \<le> 300"
    by simp
  show ?thesis
    using gaps burst_issues_one_request_for_last_value [OF gaps wait, of "''k''" init_world]
    by (simp add: init_world_def)
qed

subsection \<open>Task numbers\<close>

text \<open>
  In every world a mounted widget can reach, the tasks are filed under numbers up to
  \<open>counter\<close>: the numbers \<open>elapse\<close> walks through miss no timer.
\<close>

lemma tasks_fire_none: "tasks w j = None \<Longrightarrow> tasks (fire t w i) j = None"
proof (cases "i = j")
  case True
  assume "tasks w j = None"
  then have "\<not> timer_due t w i"
    using True by (simp add: timer_due_def)
  then show ?thesis
    using True \<open>tasks w j = None\<close> by (simp add: fire_not_due)
next
  case False
  assume "tasks w j = None"
  then show ?thesis
    using False tasks_fire_other [of j i t w] by simp
qed

lemma tasks_foldl_fire_none:
  "tasks w j = None \<Longrightarrow> tasks (foldl (fire t) w is) j = None"
  by (induction "is" arbitrary: w) (simp_all add: tasks_fire_none)

lemma tasks_elapse_none: "tasks w j = None \<Longrightarrow> tasks (elapse ms w) j = None"
  by (simp add: elapse_def Let_def tasks_foldl_fire_none del: upt_Suc)

lemma step_keeps_numbers:
  assumes "\<forall>j. counter w < j \<longrightarrow> tasks w j = None"
  shows "\<forall>j. counter (step w ev) < j \<longrightarrow> tasks (step w ev) j = None"
proof (cases ev)
  case (Call u)
  then show ?thesis
    using assms by (simp add: setUsername_def dispatch_def Let_def)
next
  case (Elapse ms)
  then show ?thesis
    using assms by (simp add: tasks_elapse_none)
next
  case (FetchRejected i msg)
  then show ?thesis
    using assms
    by (simp add: fetch_rejected_def finish_def dispatch_def split: option.splits phase.splits)
next
  case (FetchResolved i r)
  then show ?thesis
    using assms
    by (auto simp: fetch_resolved_def finish_def split: option.splits phase.splits)
next
  case (JsonSettled i)
  then show ?thesis
    using assms
    by (simp add: json_settled_def finish_def throw_def dispatch_def
        split: option.splits phase.splits sum.splits)
qed

lemma reachable_task_numbers:
  "\<forall>j. counter (run evs mounted) < j \<longrightarrow> tasks (run evs mounted) j = None"
proof (induction evs rule: rev_induct)
  case Nil
  show ?case
    by (simp add: run_def mounted_def afterMount_def setUsername_def dispatch_def Let_def
        init_world_def)
next
  case (snoc ev evs)
  then show ?case
    using step_keeps_numbers [of "run evs mounted" ev] by (simp add: run_def)
qed

subsection \<open>Completions of the listener\<close>

text \<open>The first request after mounting, 300 ms in.\<close>

lemma first_request_in_flight:
  "tasks (elapse 300 mounted) 1 = Some Fetching \<and> counter (elapse 300 mounted) = 1 \<and>
   st (elapse 300 mounted) =
     \<lparr>username = ''keajs'', repositories = JArr [], isLoading = True, error = JNull\<rparr> \<and>
   requests (elapse 300 mounted) = [url_of ''keajs'']"
  by code_simp

text \<open>
  Claim C7. When \<^verbatim>\<open>fetch\<close> throws, the error becomes the message of the failure
  and \<open>isLoading\<close> becomes false; nothing else changes: username and repositories
  stay, no request is added, and the task is over, so that no later event addressed to
  it does anything.
\<close>

theorem fetch_rejected_sets_error_and_ends:
  assumes "tasks w i = Some Fetching"
  shows "fetch_rejected i msg w =
           w\<lparr>st := (st w)\<lparr>isLoading := False, error := JStr msg\<rparr>,
             tasks := (tasks w)(i := None)\<rparr> \<and>
         after_debounce i (fetch_rejected i msg w) = fetch_rejected i msg w \<and>
         fetch_rejected i m (fetch_rejected i msg w) = fetch_rejected i msg w \<and>
         fetch_resolved i r (fetch_rejected i msg w) = fetch_rejected i msg w \<and>
         json_settled i (fetch_rejected i msg w) = fetch_rejected i msg w"
  using assms
  by (simp add: fetch_rejected_def finish_def dispatch_def reduce_def after_debounce_def
      fetch_resolved_def json_settled_def)

theorem fetch_rejected_sets_error_and_ends_witness:
  "tasks (elapse 300 mounted) 1 = Some Fetching \<and>
   st (fetch_rejected 1 ''Failed to fetch'' (elapse 300 mounted)) =
     \<lparr>username = ''keajs'', repositories = JArr [], isLoading = False,
      error = JStr ''Failed to fetch''\<rparr> \<and>
   requests (fetch_rejected 1 ''Failed to fetch'' (elapse 300 mounted)) = [url_of ''keajs''] \<and>
   tasks (fetch_rejected 1 ''Failed to fetch'' (elapse 300 mounted)) 1 = None"
proof -
  have h: "tasks (elapse 300 mounted) 1 = Some Fetching"
    using first_request_in_flight by simp
  have "fetch_rejected 1 ''Failed to fetch'' (elapse 300 mounted) =
      (elapse 300 mounted)
        \<lparr>st := (st (elapse 300 mounted))
                 \<lparr>isLoading := False, error := JStr ''Failed to fetch''\<rparr>,
         tasks := (tasks (elapse 300 mounted))(1 := None)\<rparr>"
    using fetch_rejected_sets_error_and_ends [OF h] by blast
  then show ?thesis
    using h first_request_in_flight by simp
qed

text \<open>
  Claim C6. When the latest request receives a response whose body parses as JSON:
  with status 200 the repositories become the parsed value and \<open>isLoading\<close> false;
  with any other status and a body object that has a \<^verbatim>\<open>message\<close>, the error
  becomes that message and \<open>isLoading\<close> false.
\<close>

theorem response_of_latest_request:
  assumes "tasks w i = Some Fetching" and "counter w = i" and "json_body r = Some json"
  shows "(status r = 200 \<longrightarrow>
            st (json_settled i (fetch_resolved i r w)) =
              (st w)\<lparr>repositories := json, isLoading := False\<rparr>) \<and>
         (status r \<noteq> 200 \<longrightarrow> json = JObj kvs \<longrightarrow> map_of kvs ''message'' = Some m \<longrightarrow>
            st (json_settled i (fetch_resolved i r w)) =
              (st w)\<lparr>isLoading := False, error := m\<rparr>)"
  using assms
  by (simp add: fetch_resolved_def json_settled_def superseded_def finish_def dispatch_def
      reduce_def)

theorem response_of_latest_request_witness:
  "st (json_settled 1 (fetch_resolved 1
         \<lparr>status = 200, json_body = Some (JArr [docs_repo, kea_repo])\<rparr> (elapse 300 mounted))) =
     \<lparr>username = ''keajs'', repositories = JArr [docs_repo, kea_repo], isLoading = False,
      error = JNull\<rparr> \<and>
   st (json_settled 1 (fetch_resolved 1
         \<lparr>status = 404, json_body = Some (JObj [(''message'', JStr ''Not Found'')])\<rparr>
         (elapse 300 mounted))) =
     \<lparr>username = ''keajs'', repositories = JArr [], isLoading = False,
      error = JStr ''Not Found''\<rparr>"
proof -
  have task: "tasks (elapse 300 mounted) 1 = Some Fetching"
    and latest: "counter (elapse 300 mounted) = 1"
    using first_request_in_flight by simp_all
  have ok: "json_body \<lparr>status = 200, json_body = Some (JArr [docs_repo, kea_repo])\<rparr> =
      Some (JArr [docs_repo, kea_repo])"
    by simp
  have nf:
    "json_body \<lparr>status = 404, json_body = Some (JObj [(''message'', JStr ''Not Found'')])\<rparr> =
       Some (JObj [(''message'', JStr ''Not Found'')])"
    by simp
  show ?thesis
    using response_of_latest_request [OF task latest ok]
      response_of_latest_request [OF task latest nf,
        of "[(''message'', JStr ''Not Found'')]" "JStr ''Not Found''"]
      first_request_in_flight
    by simp
qed

subsection \<open>Superseded calls\<close>

text \<open>
  The two \<^verbatim>\<open>breakpoint\<close> calls do their work: a superseded task that wakes from
  its debounce issues no request and changes no value, and one that receives its
  response ends without reading the body.
\<close>

lemma superseded_after_debounce:
  "superseded i w \<Longrightarrow>
   st (after_debounce i w) = st w \<and> requests (after_debounce i w) = requests w"
  by (simp add: after_debounce_def finish_def split: option.splits phase.splits)

lemma superseded_fetch_resolved:
  "superseded i w \<Longrightarrow> tasks w i = Some Fetching \<Longrightarrow> fetch_resolved i r w = finish i w"
  by (simp add: fetch_resolved_def)

text \<open>
  Claim C1 asks that no completion of a superseded call changes the values. The
  \<^verbatim>\<open>catch\<close> block runs before the second \<^verbatim>\<open>breakpoint()\<close>: after
  \<open>setUsername ''keajs''\<close> has started its request and \<open>setUsername ''kea''\<close> has
  superseded it, the failure of the first request sets the error and ends the loading
  state of the second.
\<close>

theorem stale_transport_failure_mutates_state:
  "superseded 1 (run [Elapse 300, Call ''kea''] mounted) \<and>
   tasks (run [Elapse 300, Call ''kea''] mounted) 1 = Some Fetching \<and>
   st (run [Elapse 300, Call ''kea''] mounted) =
     \<lparr>username = ''kea'', repositories = JArr [], isLoading = True, error = JNull\<rparr> \<and>
   st (run [Elapse 300, Call ''kea'', FetchRejected 1 ''Failed to fetch''] mounted) =
     \<lparr>username = ''kea'', repositories = JArr [], isLoading = False,
      error = JStr ''Failed to fetch''\<rparr>"
  by code_simp

text \<open>
  The same holds for a call superseded while its body is being read: nothing checks
  after \<^verbatim>\<open>await response.json()\<close>.
\<close>

lemma stale_body_mutates_state:
  "superseded 1
     (run [Elapse 300, FetchResolved 1 \<lparr>status = 200, json_body = Some (JArr [kea_repo])\<rparr>,
           Call ''kea''] mounted) \<and>
   st (run [Elapse 300, FetchResolved 1 \<lparr>status = 200, json_body = Some (JArr [kea_repo])\<rparr>,
            Call ''kea'', JsonSettled 1] mounted) =
     \<lparr>username = ''kea'', repositories = JArr [kea_repo], isLoading = False, error = JNull\<rparr>"
  by code_simp

text \<open>
  Claim C5 asks that results and error message are never both non-empty. The stale
  failure above leaves its message behind, and the answer to the second request then
  fills the repositories beside it.
\<close>

theorem stale_failure_breaks_exclusion:
  "st (run [Elapse 300, Call ''kea'', FetchRejected 1 ''Failed to fetch'', Elapse 300,
            FetchResolved 2 \<lparr>status = 200, json_body = Some (JArr [kea_repo])\<rparr>,
            JsonSettled 2] mounted) =
     \<lparr>username = ''kea'', repositories = JArr [kea_repo], isLoading = False,
      error = JStr ''Failed to fetch''\<rparr> \<and>
   \<not> exclusive
     (st (run [Elapse 300, Call ''kea'', FetchRejected 1 ''Failed to fetch'', Elapse 300,
               FetchResolved 2 \<lparr>status = 200, json_body = Some (JArr [kea_repo])\<rparr>,
               JsonSettled 2] mounted))"
  by code_simp

text \<open>
  Claim C8 asks that no error leaves the listener. A response whose body is not JSON
  makes \<^verbatim>\<open>response.json()\<close> reject outside every \<^verbatim>\<open>try\<close>: the error
  escapes, the error message stays null and the widget keeps loading. An error status
  with the body \<^verbatim>\<open>null\<close> escapes likewise, from \<^verbatim>\<open>json.message\<close>.
\<close>

theorem malformed_body_escapes:
  "escaped (run [Elapse 300, FetchResolved 1 \<lparr>status = 200, json_body = None\<rparr>,
                 JsonSettled 1] mounted) = [SyntaxError] \<and>
   st (run [Elapse 300, FetchResolved 1 \<lparr>status = 200, json_body = None\<rparr>,
            JsonSettled 1] mounted) =
     \<lparr>username = ''keajs'', repositories = JArr [], isLoading = True, error = JNull\<rparr> \<and>
   escaped (run [Elapse 300, FetchResolved 1 \<lparr>status = 500, json_body = Some JNull\<rparr>,
                 JsonSettled 1] mounted) = [TypeError]"
  by code_simp

end
